theory Spec2Isabelle
  imports Main "HOL-Library.Word"
begin

section \<open>Device buffers, IPC handles and the buffered writer of cuda\_memory.cc\<close>

text \<open>
  The development embeds \<^verbatim>\<open>cpp/src/arrow/gpu/cuda_memory.cc\<close>. Pointers are
  addresses (\<open>int\<close>), \<open>int64_t\<close> counters are \<open>int\<close> (no operation of the file
  relies on wrap-around), bytes are \<open>8 word\<close>. A pair (pointer, nbytes) that names a
  readable range of host memory is the list of those bytes, so \<open>nbytes\<close> is the length
  of the list. Every member function takes the state it mutates and returns it updated,
  next to the \<open>Status\<close> it returns; \<open>RETURN_NOT_OK\<close> is the early return on a
  status other than \<open>OK\<close>.
\<close>

subsection \<open>Status values and the device context\<close>

type_synonym byte = "8 word"
type_synonym addr = int

text \<open>The requests that reach the accelerator driver, with their arguments.\<close>

datatype driver_call =
    MemFree addr int
  | IpcCloseMemHandle addr
  | IpcGetMemHandle addr
  | MemcpyHtoD addr "byte list"
  | MemcpyDtoH addr int
  | MemHostAlloc int

datatype Status =
    OK
  | Invalid string
  | IOError string
  | OutOfMemory
  | CudaError driver_call

text \<open>
  Modelled from the spec: the device context and device manager (cuda\_context.cc) and
  the driver behind them are not part of the source. The model is an instrumented
  device: \<open>device_memory\<close> holds the bytes of device memory (address \<open>a\<close> is index
  \<open>a\<close>), \<open>driver_log\<close> records every request in order, and \<open>driver_rejects\<close>
  lets the driver fail any request, depending on the requests made so far. A failed
  request has no effect and is reported as an error carrying the request. The fields
  \<open>ipc_token\<close> and \<open>host_junk\<close> give the bytes the driver produces: the token it
  hands out for a device address and the content of fresh page-locked memory.
\<close>

record CudaContext =
  device_memory :: "byte list"
  driver_log :: "driver_call list"
  driver_rejects :: "driver_call list \<Rightarrow> driver_call \<Rightarrow> bool"
  ipc_token :: "addr \<Rightarrow> nat \<Rightarrow> byte"
  host_junk :: "nat \<Rightarrow> byte"

text \<open>\<open>memcpy\<close> of \<open>src\<close> to offset \<open>off\<close> of a memory area.\<close>

definition memcpy_at :: "byte list \<Rightarrow> nat \<Rightarrow> byte list \<Rightarrow> byte list" where
  "memcpy_at mem off src = take off mem @ src @ drop (off + length src) mem"

definition device_range :: "CudaContext \<Rightarrow> addr \<Rightarrow> int \<Rightarrow> bool" where
  "device_range c p n = (0 \<le> p \<and> 0 \<le> n \<and> p + n \<le> int (length (device_memory c)))"

text \<open>Every request is logged; the result says whether the driver accepted it.\<close>

definition driver_request :: "CudaContext \<Rightarrow> driver_call \<Rightarrow> bool \<times> CudaContext" where
  "driver_request c call =
     (\<not> driver_rejects c (driver_log c) call, c\<lparr>driver_log := driver_log c @ [call]\<rparr>)"

text \<open>
  Modelled from the spec: \<open>CudaContext::CopyHostToDevice(dst, src, nbytes)\<close>, a
  synchronous copy that fails when the range exceeds device memory.
\<close>

definition CopyHostToDevice :: "CudaContext \<Rightarrow> addr \<Rightarrow> byte list \<Rightarrow> Status \<times> CudaContext" where
  "CopyHostToDevice c dst src =
     (let (accepted, c') = driver_request c (MemcpyHtoD dst src) in
      if accepted \<and> device_range c dst (int (length src))
      then (OK, c'\<lparr>device_memory := memcpy_at (device_memory c) (nat dst) src\<rparr>)
      else (CudaError (MemcpyHtoD dst src), c'))"

text \<open>
  Modelled from the spec: \<open>CudaContext::CopyDeviceToHost(dst, src, nbytes)\<close>; the bytes
  stored through \<open>dst\<close> are returned.
\<close>

definition CopyDeviceToHost :: "CudaContext \<Rightarrow> addr \<Rightarrow> int \<Rightarrow> Status \<times> CudaContext \<times> byte list" where
  "CopyDeviceToHost c src nbytes =
     (let (accepted, c') = driver_request c (MemcpyDtoH src nbytes) in
      if accepted \<and> device_range c src nbytes
      then (OK, c', take (nat nbytes) (drop (nat src) (device_memory c)))
      else (CudaError (MemcpyDtoH src nbytes), c', []))"

text \<open>Modelled from the spec: \<open>CudaContext::Free(address, size)\<close>.\<close>

definition Free :: "CudaContext \<Rightarrow> addr \<Rightarrow> int \<Rightarrow> Status \<times> CudaContext" where
  "Free c p n =
     (let (accepted, c') = driver_request c (MemFree p n) in
      if accepted then (OK, c') else (CudaError (MemFree p n), c'))"

text \<open>
  Modelled from the spec: the driver call \<open>cuIpcCloseMemHandle\<close> under the macro
  \<open>CU_RETURN_NOT_OK\<close> (cuda\_common.h), which turns a driver failure into a status.
\<close>

definition cuIpcCloseMemHandle :: "CudaContext \<Rightarrow> addr \<Rightarrow> Status \<times> CudaContext" where
  "cuIpcCloseMemHandle c p =
     (let (accepted, c') = driver_request c (IpcCloseMemHandle p) in
      if accepted then (OK, c') else (CudaError (IpcCloseMemHandle p), c'))"

text \<open>
  Modelled from the spec: \<open>AllocateHost(size)\<close> of the device manager, reached
  through \<open>AllocateCudaHostBuffer\<close>. A negative size is never granted.
\<close>

definition AllocateCudaHostBuffer :: "CudaContext \<Rightarrow> int \<Rightarrow> Status \<times> CudaContext \<times> byte list" where
  "AllocateCudaHostBuffer c n =
     (let (accepted, c') = driver_request c (MemHostAlloc n) in
      if accepted \<and> 0 \<le> n then (OK, c', map (host_junk c) [0..<nat n])
      else (CudaError (MemHostAlloc n), c', []))"

subsection \<open>CUDA IPC memory handle\<close>

text \<open>
  Modelled from the spec: \<open>sizeof(CUipcMemHandle)\<close>, the fixed width of the driver's
  token; cuda.h is not part of the source (the driver API fixes it at 64 bytes).
\<close>

definition kHandleSize :: nat where
  "kHandleSize = 64"

record CudaIpcMemHandle =
  ipc_handle :: "byte list"

text \<open>The constructor copies \<open>sizeof(CUipcMemHandle)\<close> bytes from its argument.\<close>

definition CudaIpcMemHandle_ctor :: "byte list \<Rightarrow> CudaIpcMemHandle" where
  "CudaIpcMemHandle_ctor handle = \<lparr>ipc_handle = take kHandleSize handle\<rparr>"

definition FromBuffer :: "byte list \<Rightarrow> Status \<times> CudaIpcMemHandle" where
  "FromBuffer opaque_handle = (OK, CudaIpcMemHandle_ctor opaque_handle)"

text \<open>
  Modelled from the spec: \<open>AllocateBuffer(pool, size, &buffer)\<close> (arrow/buffer.h) is
  not part of the source. The pool grants a request that fits what it has left
  and hands out memory of unspecified content.
\<close>

record MemoryPool =
  pool_available :: int
  pool_junk :: "nat \<Rightarrow> byte"

definition AllocateBuffer :: "MemoryPool \<Rightarrow> int \<Rightarrow> Status \<times> MemoryPool \<times> byte list" where
  "AllocateBuffer pool n =
     (if 0 \<le> n \<and> n \<le> pool_available pool
      then (OK, pool\<lparr>pool_available := pool_available pool - n\<rparr>, map (pool_junk pool) [0..<nat n])
      else (OutOfMemory, pool, []))"

definition Serialize :: "MemoryPool \<Rightarrow> CudaIpcMemHandle \<Rightarrow> Status \<times> MemoryPool \<times> byte list option" where
  "Serialize pool h =
     (let (st, pool', buffer) = AllocateBuffer pool (int kHandleSize) in
      if st \<noteq> OK then (st, pool', None)
      else (OK, pool', Some (memcpy_at buffer 0 (take kHandleSize (ipc_handle h)))))"

definition handle :: "CudaIpcMemHandle \<Rightarrow> byte list" where
  "handle h = ipc_handle h"

text \<open>
  Modelled from the spec: \<open>CudaContext::ExportIpcBuffer(address)\<close>, which asks the
  driver for the token of a device address.
\<close>

definition ExportIpcBuffer :: "CudaContext \<Rightarrow> addr \<Rightarrow> Status \<times> CudaContext \<times> CudaIpcMemHandle option" where
  "ExportIpcBuffer c p =
     (let (accepted, c') = driver_request c (IpcGetMemHandle p) in
      if accepted
      then (OK, c', Some (CudaIpcMemHandle_ctor (map (ipc_token c p) [0..<kHandleSize])))
      else (CudaError (IpcGetMemHandle p), c', None))"

subsection \<open>CudaBuffer\<close>

text \<open>
  The fields of \<open>Buffer\<close> that the file uses and those \<open>CudaBuffer\<close> adds. The size
  is \<open>buf_size\<close> (\<open>size\<close> is a constant of HOL). \<open>has_parent\<close> stands for the shared
  pointer to the parent that a slice keeps. The null pointer is address 0.
\<close>

record CudaBuffer =
  data :: addr
  mutable_data :: addr
  buf_size :: int
  is_mutable :: bool
  has_parent :: bool
  own_data :: bool
  is_ipc :: bool

definition CudaBuffer_ctor :: "addr \<Rightarrow> int \<Rightarrow> bool \<Rightarrow> bool \<Rightarrow> CudaBuffer" where
  "CudaBuffer_ctor d n own ipc =
     \<lparr>data = d, mutable_data = d, buf_size = n, is_mutable = True, has_parent = False,
      own_data = own, is_ipc = ipc\<rparr>"

text \<open>
  The slice constructor. Modelled from the spec: the base constructor
  \<open>Buffer(parent, offset, size)\<close> (arrow/buffer.h) is not part of the source; it makes
  a read-only view over \<open>[offset, offset + size)\<close> of the parent and keeps the parent
  alive. The two ownership flags are set by the source.
\<close>

definition CudaBuffer_slice :: "CudaBuffer \<Rightarrow> int \<Rightarrow> int \<Rightarrow> CudaBuffer" where
  "CudaBuffer_slice parent offset n =
     \<lparr>data = data parent + offset, mutable_data = 0, buf_size = n, is_mutable = False,
      has_parent = True, own_data = False, is_ipc = False\<rparr>"

definition CudaBuffer_Close :: "CudaContext \<Rightarrow> CudaBuffer \<Rightarrow> Status \<times> CudaContext" where
  "CudaBuffer_Close c b =
     (if own_data b then
        (if is_ipc b then
           (let (st, c') = cuIpcCloseMemHandle c (mutable_data b) in
            if st \<noteq> OK then (st, c') else (OK, c'))
         else Free c (mutable_data b) (buf_size b))
      else (OK, c))"

text \<open>A caller that closes the buffers of a list one after the other.\<close>

fun Close_each :: "CudaContext \<Rightarrow> CudaBuffer list \<Rightarrow> CudaContext" where
  "Close_each c [] = c"
| "Close_each c (b # bs) = Close_each (snd (CudaBuffer_Close c b)) bs"

definition CopyToHost :: "CudaContext \<Rightarrow> CudaBuffer \<Rightarrow> int \<Rightarrow> int \<Rightarrow> Status \<times> CudaContext \<times> byte list" where
  "CopyToHost c b position nbytes = CopyDeviceToHost c (data b + position) nbytes"

text \<open>
  Modelled from the spec: the macros \<open>DCHECK\<close> and \<open>DCHECK_LE\<close> (arrow/util/logging.h)
  are not part of the source; a check that fails is a fatal assertion, which ends the
  program with the message given.
\<close>

datatype 'a checked = CheckFailed string | Passed 'a

definition CopyFromHost :: "CudaContext \<Rightarrow> CudaBuffer \<Rightarrow> int \<Rightarrow> byte list \<Rightarrow> (Status \<times> CudaContext) checked" where
  "CopyFromHost c b position src =
     (let nbytes = int (length src) in
      if \<not> nbytes \<le> buf_size b - position then CheckFailed ''Copy would overflow buffer''
      else Passed (CopyHostToDevice c (mutable_data b + position) src))"

definition ExportForIpc :: "CudaContext \<Rightarrow> CudaBuffer \<Rightarrow> Status \<times> CudaContext \<times> CudaBuffer \<times> CudaIpcMemHandle option" where
  "ExportForIpc c b =
     (if is_ipc b then (Invalid ''Buffer has already been exported for IPC'', c, b, None)
      else
        (let (st, c', h) = ExportIpcBuffer c (mutable_data b) in
         if st \<noteq> OK then (st, c', b, None)
         else (OK, c', b\<lparr>own_data := False\<rparr>, h)))"

subsection \<open>CudaBufferWriter\<close>

text \<open>
  The members of \<open>CudaBufferWriterImpl\<close>. \<open>w_mutable_data\<close> and \<open>w_size\<close> are the
  members \<open>mutable_data_\<close> and \<open>size_\<close>; \<open>host_buffer_data\<close> is the content of the
  pinned host buffer that \<open>host_buffer_data_\<close> points to. The context is passed to every
  operation. The mutex only orders concurrent callers and has no sequential effect.
\<close>

record CudaBufferWriterImpl =
  w_mutable_data :: addr
  w_size :: int
  position :: int
  buffer_size :: int
  buffer_position :: int
  host_buffer_data :: "byte list"

definition CudaBufferWriterImpl_ctor :: "CudaBuffer \<Rightarrow> CudaBufferWriterImpl checked" where
  "CudaBufferWriterImpl_ctor buffer =
     (if \<not> is_mutable buffer then CheckFailed ''Must pass mutable buffer''
      else Passed \<lparr>w_mutable_data = mutable_data buffer, w_size = buf_size buffer, position = 0,
                   buffer_size = 0, buffer_position = 0, host_buffer_data = []\<rparr>)"

definition Impl_Seek :: "CudaBufferWriterImpl \<Rightarrow> int \<Rightarrow> Status \<times> CudaBufferWriterImpl" where
  "Impl_Seek w pos =
     (if pos < 0 \<or> pos \<ge> w_size w then (IOError ''position out of bounds'', w)
      else (OK, w\<lparr>position := pos\<rparr>))"

definition Impl_Flush :: "CudaContext \<Rightarrow> CudaBufferWriterImpl \<Rightarrow> Status \<times> CudaContext \<times> CudaBufferWriterImpl" where
  "Impl_Flush c w =
     (if buffer_size w > 0 \<and> buffer_position w > 0 then
        (let (st, c') = CopyHostToDevice c (w_mutable_data w + position w - buffer_position w)
                          (take (nat (buffer_position w)) (host_buffer_data w)) in
         if st \<noteq> OK then (st, c', w)
         else (OK, c', w\<lparr>buffer_position := 0\<rparr>))
      else (OK, c, w))"

definition Impl_Tell :: "CudaBufferWriterImpl \<Rightarrow> Status \<times> int" where
  "Impl_Tell w = (OK, position w)"

definition Impl_Write :: "CudaContext \<Rightarrow> CudaBufferWriterImpl \<Rightarrow> byte list \<Rightarrow> Status \<times> CudaContext \<times> CudaBufferWriterImpl" where
  "Impl_Write c w src =
     (let nbytes = int (length src) in
      if nbytes = 0 then (OK, c, w)
      else if buffer_size w > 0 then
        (if nbytes + buffer_position w \<ge> buffer_size w then
           (let (st, c1, w1) = Impl_Flush c w in
            if st \<noteq> OK then (st, c1, w1)
            else
              (let (st2, c2) = CopyHostToDevice c1 (w_mutable_data w1 + position w1) src in
               if st2 \<noteq> OK then (st2, c2, w1)
               else (OK, c2, w1\<lparr>position := position w1 + nbytes\<rparr>)))
         else
           (OK, c, w\<lparr>host_buffer_data := memcpy_at (host_buffer_data w) (nat (buffer_position w)) src,
                     buffer_position := buffer_position w + nbytes,
                     position := position w + nbytes\<rparr>))
      else
        (let (st, c1) = CopyHostToDevice c (w_mutable_data w + position w) src in
         if st \<noteq> OK then (st, c1, w)
         else (OK, c1, w\<lparr>position := position w + nbytes\<rparr>)))"

definition Impl_WriteAt :: "CudaContext \<Rightarrow> CudaBufferWriterImpl \<Rightarrow> int \<Rightarrow> byte list \<Rightarrow> Status \<times> CudaContext \<times> CudaBufferWriterImpl" where
  "Impl_WriteAt c w pos src =
     (let (st, w1) = Impl_Seek w pos in
      if st \<noteq> OK then (st, c, w1)
      else Impl_Write c w1 src)"

definition Impl_SetBufferSize :: "CudaContext \<Rightarrow> CudaBufferWriterImpl \<Rightarrow> int \<Rightarrow> Status \<times> CudaContext \<times> CudaBufferWriterImpl" where
  "Impl_SetBufferSize c w n =
     (let (st, c1, w1) = (if buffer_position w > 0 then Impl_Flush c w else (OK, c, w)) in
      if st \<noteq> OK then (st, c1, w1)
      else
        (let (st2, c2, host) = AllocateCudaHostBuffer c1 n in
         if st2 \<noteq> OK then (st2, c2, w1)
         else (OK, c2, w1\<lparr>host_buffer_data := host, buffer_size := n\<rparr>)))"

text \<open>The public class forwards to the implementation object.\<close>

definition CudaBufferWriter_Flush :: "CudaContext \<Rightarrow> CudaBufferWriterImpl \<Rightarrow> Status \<times> CudaContext \<times> CudaBufferWriterImpl" where
  "CudaBufferWriter_Flush c w = Impl_Flush c w"

definition CudaBufferWriter_Close :: "CudaContext \<Rightarrow> CudaBufferWriterImpl \<Rightarrow> Status \<times> CudaContext \<times> CudaBufferWriterImpl" where
  "CudaBufferWriter_Close c w = CudaBufferWriter_Flush c w"

definition CudaBufferWriter_Seek :: "CudaContext \<Rightarrow> CudaBufferWriterImpl \<Rightarrow> int \<Rightarrow> Status \<times> CudaContext \<times> CudaBufferWriterImpl" where
  "CudaBufferWriter_Seek c w pos =
     (let (st, c1, w1) = (if buffer_position w > 0 then CudaBufferWriter_Flush c w else (OK, c, w)) in
      if st \<noteq> OK then (st, c1, w1)
      else (let (st2, w2) = Impl_Seek w1 pos in (st2, c1, w2)))"

definition CudaBufferWriter_Tell :: "CudaBufferWriterImpl \<Rightarrow> Status \<times> int" where
  "CudaBufferWriter_Tell w = Impl_Tell w"

definition CudaBufferWriter_Write :: "CudaContext \<Rightarrow> CudaBufferWriterImpl \<Rightarrow> byte list \<Rightarrow> Status \<times> CudaContext \<times> CudaBufferWriterImpl" where
  "CudaBufferWriter_Write c w src = Impl_Write c w src"

definition CudaBufferWriter_WriteAt :: "CudaContext \<Rightarrow> CudaBufferWriterImpl \<Rightarrow> int \<Rightarrow> byte list \<Rightarrow> Status \<times> CudaContext \<times> CudaBufferWriterImpl" where
  "CudaBufferWriter_WriteAt c w pos src = Impl_WriteAt c w pos src"

definition CudaBufferWriter_SetBufferSize :: "CudaContext \<Rightarrow> CudaBufferWriterImpl \<Rightarrow> int \<Rightarrow> Status \<times> CudaContext \<times> CudaBufferWriterImpl" where
  "CudaBufferWriter_SetBufferSize c w n = Impl_SetBufferSize c w n"

definition num_bytes_buffered :: "CudaBufferWriterImpl \<Rightarrow> int" where
  "num_bytes_buffered w = buffer_position w"

subsection \<open>Clients of the writer\<close>

text \<open>
  What the constructor establishes and every operation keeps: the staged count is
  not negative, stays below the staging capacity when one is configured, is zero
  otherwise, and the pinned buffer has the configured capacity.
\<close>

definition writer_inv :: "CudaBufferWriterImpl \<Rightarrow> bool" where
  "writer_inv w =
     (0 \<le> buffer_position w \<and>
      (if 0 < buffer_size w
       then buffer_position w < buffer_size w \<and> length (host_buffer_data w) = nat (buffer_size w)
       else buffer_position w = 0))"

text \<open>A caller that issues one \<open>Write\<close> per element and stops at the first error.\<close>

fun Write_all :: "CudaContext \<Rightarrow> CudaBufferWriterImpl \<Rightarrow> byte list list \<Rightarrow> Status \<times> CudaContext \<times> CudaBufferWriterImpl" where
  "Write_all c w [] = (OK, c, w)"
| "Write_all c w (src # rest) =
     (let (st, c1, w1) = CudaBufferWriter_Write c w src in
      if st \<noteq> OK then (st, c1, w1) else Write_all c1 w1 rest)"

text \<open>The same caller, ending with \<open>Flush\<close>.\<close>

definition Write_all_then_Flush :: "CudaContext \<Rightarrow> CudaBufferWriterImpl \<Rightarrow> byte list list \<Rightarrow> Status \<times> CudaContext \<times> CudaBufferWriterImpl" where
  "Write_all_then_Flush c w srcs =
     (let (st, c1, w1) = Write_all c w srcs in
      if st \<noteq> OK then (st, c1, w1) else CudaBufferWriter_Flush c1 w1)"

text \<open>The calls of the public interface that change the writer.\<close>

datatype writer_op =
    OpWrite "byte list"
  | OpFlush
  | OpSetBufferSize int
  | OpSeek int
  | OpWriteAt int "byte list"
  | OpClose

fun apply_op :: "CudaContext \<Rightarrow> CudaBufferWriterImpl \<Rightarrow> writer_op \<Rightarrow> Status \<times> CudaContext \<times> CudaBufferWriterImpl" where
  "apply_op c w (OpWrite src) = CudaBufferWriter_Write c w src"
| "apply_op c w OpFlush = CudaBufferWriter_Flush c w"
| "apply_op c w (OpSetBufferSize n) = CudaBufferWriter_SetBufferSize c w n"
| "apply_op c w (OpSeek pos) = CudaBufferWriter_Seek c w pos"
| "apply_op c w (OpWriteAt pos src) = CudaBufferWriter_WriteAt c w pos src"
| "apply_op c w OpClose = CudaBufferWriter_Close c w"

text \<open>
  A caller that issues the calls in order, whatever each one returns; the result is
  the status of the last call (\<open>OK\<close> for no call) and the state reached.
\<close>

fun run_ops :: "Status \<times> CudaContext \<times> CudaBufferWriterImpl \<Rightarrow> writer_op list \<Rightarrow> Status \<times> CudaContext \<times> CudaBufferWriterImpl" where
  "run_ops s [] = s"
| "run_ops (st, c, w) (op # ops) = run_ops (apply_op c w op) ops"

text \<open>
  The bytes a writer has staged, the device address \<open>Flush\<close> copies them to, the
  request \<open>Flush\<close> makes, and the content of device memory once that copy is done.
\<close>

definition staged_bytes :: "CudaBufferWriterImpl \<Rightarrow> byte list" where
  "staged_bytes w = take (nat (buffer_position w)) (host_buffer_data w)"

definition staged_address :: "CudaBufferWriterImpl \<Rightarrow> addr" where
  "staged_address w = w_mutable_data w + position w - buffer_position w"

definition flush_request :: "CudaBufferWriterImpl \<Rightarrow> driver_call" where
  "flush_request w = MemcpyHtoD (staged_address w) (staged_bytes w)"

definition flushed_memory :: "CudaContext \<Rightarrow> CudaBufferWriterImpl \<Rightarrow> byte list" where
  "flushed_memory c w =
     (if 0 < buffer_position w
      then memcpy_at (device_memory c) (nat (staged_address w)) (staged_bytes w)
      else device_memory c)"

text \<open>
  An unbuffered writer \<open>wu\<close> and a buffered writer \<open>wb\<close> that have received the same
  bytes: same cursor, same target, and the device of the unbuffered writer already
  holds what the device of the buffered one holds after a flush.
\<close>

definition same_bytes_written :: "CudaContext \<Rightarrow> CudaBufferWriterImpl \<Rightarrow> CudaContext \<Rightarrow> CudaBufferWriterImpl \<Rightarrow> bool" where
  "same_bytes_written cu wu cb wb =
     (buffer_size wu \<le> 0 \<and> 0 < buffer_size wb \<and> writer_inv wb \<and>
      position wu = position wb \<and> w_mutable_data wu = w_mutable_data wb \<and>
      length (device_memory cu) = length (device_memory cb) \<and>
      device_memory cu = flushed_memory cb wb \<and>
      (0 < buffer_position wb \<longrightarrow>
         0 \<le> staged_address wb \<and>
         w_mutable_data wb + position wb \<le> int (length (device_memory cb))))"

text \<open>A device of \<open>n\<close> zero bytes whose driver accepts every request.\<close>

definition quiet_device :: "nat \<Rightarrow> CudaContext" where
  "quiet_device n =
     \<lparr>device_memory = replicate n 0, driver_log = [], driver_rejects = (\<lambda>log call. False),
      ipc_token = (\<lambda>p i. 0), host_junk = (\<lambda>i. 0)\<rparr>"

section \<open>Properties\<close>

subsection \<open>Facts about the device context\<close>

lemma memcpy_at_length:
  "off + length src \<le> length mem \<Longrightarrow> length (memcpy_at mem off src) = length mem"
  by (simp add: memcpy_at_def)

lemma memcpy_at_append:
  "off + length xs \<le> length mem \<Longrightarrow>
   memcpy_at (memcpy_at mem off xs) (off + length xs) ys = memcpy_at mem off (xs @ ys)"
  by (simp add: memcpy_at_def add.assoc add.commute add.left_commute)

lemma memcpy_at_read:
  "off + length src \<le> length mem \<Longrightarrow> take (length src) (drop off (memcpy_at mem off src)) = src"
  by (simp add: memcpy_at_def)

lemma memcpy_at_whole:
  "length mem = length src \<Longrightarrow> memcpy_at mem 0 src = src"
  by (simp add: memcpy_at_def)

lemma memcpy_at_staged:
  "off + length src \<le> length mem \<Longrightarrow>
   take (off + length src) (memcpy_at mem off src) = take off mem @ src"
  by (simp add: memcpy_at_def)

lemma CopyHostToDevice_OK:
  "CopyHostToDevice c dst src = (OK, c') \<Longrightarrow>
   device_range c dst (int (length src)) \<and>
   c' = c\<lparr>driver_log := driver_log c @ [MemcpyHtoD dst src],
          device_memory := memcpy_at (device_memory c) (nat dst) src\<rparr>"
  by (auto simp: CopyHostToDevice_def driver_request_def split: if_splits)

lemma CopyHostToDevice_cases:
  "CopyHostToDevice c dst src =
     (if \<not> driver_rejects c (driver_log c) (MemcpyHtoD dst src) \<and> device_range c dst (int (length src))
      then (OK, c\<lparr>driver_log := driver_log c @ [MemcpyHtoD dst src],
                   device_memory := memcpy_at (device_memory c) (nat dst) src\<rparr>)
      else (CudaError (MemcpyHtoD dst src), c\<lparr>driver_log := driver_log c @ [MemcpyHtoD dst src]\<rparr>))"
  by (simp add: CopyHostToDevice_def driver_request_def)

subsection \<open>IPC handles\<close>

text \<open>
  Claim C7. For a handle \<open>h\<close> holding a token of the driver's width, \<open>Serialize\<close>
  succeeds when the pool grants the allocation, and every successful \<open>Serialize\<close>
  returns a buffer of exactly that width holding the token bytes unchanged;
  \<open>FromBuffer\<close> on those bytes gives back \<open>h\<close>.
\<close>

theorem Serialize_FromBuffer_roundtrip:
  assumes "length (ipc_handle h) = kHandleSize"
  shows "(int kHandleSize \<le> pool_available pool \<longrightarrow> fst (Serialize pool h) = OK) \<and>
         (\<forall>pool' out. Serialize pool h = (OK, pool', out) \<longrightarrow>
            out = Some (ipc_handle h) \<and> length (ipc_handle h) = kHandleSize \<and>
            FromBuffer (ipc_handle h) = (OK, h))"
  using assms
  by (auto simp: Serialize_def AllocateBuffer_def FromBuffer_def CudaIpcMemHandle_ctor_def
      memcpy_at_whole split: if_splits)

theorem Serialize_FromBuffer_roundtrip_witness:
  "Serialize \<lparr>pool_available = 100, pool_junk = (\<lambda>i. 0)\<rparr> (CudaIpcMemHandle_ctor (replicate 64 5))
     = (OK, \<lparr>pool_available = 36, pool_junk = (\<lambda>i. 0)\<rparr>, Some (replicate 64 5)) \<and>
   FromBuffer (replicate 64 5) = (OK, CudaIpcMemHandle_ctor (replicate 64 5))"
proof -
  let ?h = "CudaIpcMemHandle_ctor (replicate 64 5)"
  let ?pool = "\<lparr>pool_available = 100, pool_junk = (\<lambda>i. 0 :: byte)\<rparr>"
  have len: "length (ipc_handle ?h) = kHandleSize"
    by (simp add: CudaIpcMemHandle_ctor_def kHandleSize_def)
  have ok: "Serialize ?pool ?h = (OK, \<lparr>pool_available = 36, pool_junk = (\<lambda>i. 0)\<rparr>, snd (snd (Serialize ?pool ?h)))"
    by (simp add: Serialize_def AllocateBuffer_def kHandleSize_def)
  from Serialize_FromBuffer_roundtrip [OF len, of ?pool] ok
  show ?thesis
    by (simp add: CudaIpcMemHandle_ctor_def kHandleSize_def)
qed

subsection \<open>Device buffers\<close>

lemma Close_each_not_owning:
  "\<forall>b \<in> set bs. \<not> own_data b \<Longrightarrow> Close_each c bs = c"
  by (induction bs) (simp_all add: CudaBuffer_Close_def)

lemma Close_each_append: "Close_each c (bs @ bs') = Close_each (Close_each c bs) bs'"
  by (induction bs arbitrary: c) simp_all

text \<open>
  Claim C6. \<open>CudaBuffer::Close\<close> dispatches on the ownership flags. On a buffer that
  does not own its data, as every slice, it makes no driver request and returns
  \<open>OK\<close>. On an owning buffer that is not an IPC mapping it is the context's \<open>Free\<close>
  of the buffer's address with the recorded size: the driver sees that one request
  and nothing else, also when any number of slices of the buffer are closed before
  the buffer itself. On an owning IPC mapping the driver sees one request to close
  the mapping and no request to free.
\<close>

theorem CudaBuffer_Close_dispatch:
  "(\<not> own_data b \<longrightarrow> CudaBuffer_Close c b = (OK, c)) \<and>
   (own_data b \<and> \<not> is_ipc b \<longrightarrow>
      CudaBuffer_Close c b = Free c (mutable_data b) (buf_size b) \<and>
      snd (CudaBuffer_Close c b) =
        c\<lparr>driver_log := driver_log c @ [MemFree (mutable_data b) (buf_size b)]\<rparr> \<and>
      Close_each c (map (\<lambda>(offset, n). CudaBuffer_slice b offset n) ranges @ [b]) =
        c\<lparr>driver_log := driver_log c @ [MemFree (mutable_data b) (buf_size b)]\<rparr>) \<and>
   (own_data b \<and> is_ipc b \<longrightarrow>
      snd (CudaBuffer_Close c b) =
        c\<lparr>driver_log := driver_log c @ [IpcCloseMemHandle (mutable_data b)]\<rparr>) \<and>
   \<not> own_data (CudaBuffer_slice parent offset n) \<and>
   CudaBuffer_Close c (CudaBuffer_slice parent offset n) = (OK, c)"
proof -
  have "Close_each c (map (\<lambda>(offset, n). CudaBuffer_slice b offset n) ranges) = c"
    by (rule Close_each_not_owning) (auto simp: CudaBuffer_slice_def)
  then show ?thesis
    by (simp add: Close_each_append CudaBuffer_Close_def Free_def cuIpcCloseMemHandle_def
        driver_request_def CudaBuffer_slice_def)
qed

theorem CudaBuffer_Close_dispatch_witness:
  "CudaBuffer_Close (quiet_device 8) (CudaBuffer_slice (CudaBuffer_ctor 0 8 True False) 2 4) = (OK, quiet_device 8) \<and>
   CudaBuffer_Close (quiet_device 8) (CudaBuffer_ctor 0 8 True False) =
     (OK, (quiet_device 8)\<lparr>driver_log := [MemFree 0 8]\<rparr>) \<and>
   Close_each (quiet_device 8)
     [CudaBuffer_slice (CudaBuffer_ctor 0 8 True False) 0 4,
      CudaBuffer_slice (CudaBuffer_ctor 0 8 True False) 4 4,
      CudaBuffer_ctor 0 8 True False] = (quiet_device 8)\<lparr>driver_log := [MemFree 0 8]\<rparr> \<and>
   CudaBuffer_Close (quiet_device 8) (CudaBuffer_ctor 0 8 True True) =
     (OK, (quiet_device 8)\<lparr>driver_log := [IpcCloseMemHandle 0]\<rparr>)"
  using CudaBuffer_Close_dispatch [of "CudaBuffer_ctor 0 8 True False" "quiet_device 8"
      "[(0, 4), (4, 4)]" "CudaBuffer_ctor 0 8 True False" 2 4]
    CudaBuffer_Close_dispatch [of "CudaBuffer_ctor 0 8 True True" "quiet_device 8"]
  by (simp add: CudaBuffer_ctor_def quiet_device_def Free_def driver_request_def
      CudaBuffer_Close_def cuIpcCloseMemHandle_def CudaBuffer_slice_def)

text \<open>
  Claim C9. \<open>CudaBuffer::CopyFromHost\<close> asserts \<open>position + nbytes \<le> size\<close>: a call
  that violates it ends in the fatal assertion. A call that respects it passes the
  assertion and hands exactly the \<open>nbytes\<close> bytes to the context for address
  \<open>mutable_data + position\<close>; the status returned is \<open>OK\<close>, with the bytes on the
  device at that address, or the driver's error for that transfer, never a bounds
  error of the buffer's own.
\<close>

theorem CopyFromHost_precondition:
  "(\<not> pos + int (length src) \<le> buf_size b \<longrightarrow>
      CopyFromHost c b pos src = CheckFailed ''Copy would overflow buffer'') \<and>
   (pos + int (length src) \<le> buf_size b \<longrightarrow>
      (\<exists>st c'. CopyFromHost c b pos src = Passed (st, c') \<and>
         driver_log c' = driver_log c @ [MemcpyHtoD (mutable_data b + pos) src] \<and>
         (st = OK \<or> st = CudaError (MemcpyHtoD (mutable_data b + pos) src)) \<and>
         (st = OK \<longrightarrow> device_memory c' = memcpy_at (device_memory c) (nat (mutable_data b + pos)) src
             \<and> take (length src) (drop (nat (mutable_data b + pos)) (device_memory c')) = src) \<and>
         (st \<noteq> OK \<longrightarrow> device_memory c' = device_memory c)))"
  by (auto simp: CopyFromHost_def CopyHostToDevice_cases device_range_def memcpy_at_read)

theorem CopyFromHost_precondition_witness:
  "CopyFromHost (quiet_device 8) (CudaBuffer_ctor 0 8 True False) 6 [1, 2, 3]
     = CheckFailed ''Copy would overflow buffer'' \<and>
   (\<exists>c'. CopyFromHost (quiet_device 8) (CudaBuffer_ctor 0 8 True False) 5 [1, 2, 3] = Passed (OK, c') \<and>
      driver_log c' = [MemcpyHtoD 5 [1, 2, 3]] \<and> device_memory c' = [0, 0, 0, 0, 0, 1, 2, 3])"
  using CopyFromHost_precondition [of 6 "[1, 2, 3]" "CudaBuffer_ctor 0 8 True False" "quiet_device 8"]
    CopyFromHost_precondition [of 5 "[1, 2, 3]" "CudaBuffer_ctor 0 8 True False" "quiet_device 8"]
  by (simp add: CudaBuffer_ctor_def quiet_device_def CopyFromHost_def CopyHostToDevice_cases
      device_range_def memcpy_at_def eval_nat_numeral)

text \<open>
  Claim C8. After \<open>ExportForIpc\<close> has returned \<open>OK\<close> the buffer does not own its
  data, so \<open>Close\<close> on it, in whatever state the context is, makes no driver request
  and returns \<open>OK\<close>. When \<open>ExportForIpc\<close> returns an error the buffer, and with it
  the ownership flag and what \<open>Close\<close> does, is as before.
\<close>

theorem ExportForIpc_gives_up_ownership:
  assumes "ExportForIpc c b = (st, c', b', h)"
  shows "(st = OK \<longrightarrow> \<not> own_data b' \<and> CudaBuffer_Close c2 b' = (OK, c2)) \<and>
         (st \<noteq> OK \<longrightarrow> b' = b \<and> own_data b' = own_data b \<and> CudaBuffer_Close c2 b' = CudaBuffer_Close c2 b)"
  using assms
  by (auto simp: ExportForIpc_def CudaBuffer_Close_def split: if_splits prod.splits)

theorem ExportForIpc_gives_up_ownership_witness:
  "\<not> own_data (fst (snd (snd (ExportForIpc (quiet_device 8) (CudaBuffer_ctor 0 8 True False))))) \<and>
   CudaBuffer_Close (quiet_device 8)
     (fst (snd (snd (ExportForIpc (quiet_device 8) (CudaBuffer_ctor 0 8 True False))))) = (OK, quiet_device 8) \<and>
   fst (snd (snd (ExportForIpc (quiet_device 8) (CudaBuffer_ctor 0 8 True True)))) = CudaBuffer_ctor 0 8 True True"
proof -
  let ?b = "CudaBuffer_ctor 0 8 True False"
  let ?i = "CudaBuffer_ctor 0 8 True True"
  let ?r = "ExportForIpc (quiet_device 8) ?b"
  let ?q = "ExportForIpc (quiet_device 8) ?i"
  have r: "?r = (OK, fst (snd ?r), fst (snd (snd ?r)), snd (snd (snd ?r)))"
    by (simp add: ExportForIpc_def ExportIpcBuffer_def driver_request_def quiet_device_def
        CudaBuffer_ctor_def)
  have q: "?q = (Invalid ''Buffer has already been exported for IPC'', fst (snd ?q),
                 fst (snd (snd ?q)), snd (snd (snd ?q)))"
    by (simp add: ExportForIpc_def CudaBuffer_ctor_def)
  from ExportForIpc_gives_up_ownership [OF r, of "quiet_device 8"]
    ExportForIpc_gives_up_ownership [OF q, of "quiet_device 8"]
  show ?thesis by simp
qed

text \<open>
  Claim C2, evaluated on the code. A buffer allocated by this process is exported
  twice on a device that accepts every request. The first export returns \<open>OK\<close> and
  clears \<open>own_data\<close>; \<open>is_ipc\<close> stays false, so the second export passes the
  check, asks the driver again and returns \<open>OK\<close> with a handle, not the error
  \<open>Invalid\<close>.
\<close>

theorem ExportForIpc_second_export_accepted:
  "ExportForIpc (quiet_device 8) (CudaBuffer_ctor 0 8 True False) =
     (OK, (quiet_device 8)\<lparr>driver_log := [IpcGetMemHandle 0]\<rparr>,
      CudaBuffer_ctor 0 8 False False, Some (CudaIpcMemHandle_ctor (replicate 64 0))) \<and>
   ExportForIpc ((quiet_device 8)\<lparr>driver_log := [IpcGetMemHandle 0]\<rparr>) (CudaBuffer_ctor 0 8 False False) =
     (OK, (quiet_device 8)\<lparr>driver_log := [IpcGetMemHandle 0, IpcGetMemHandle 0]\<rparr>,
      CudaBuffer_ctor 0 8 False False, Some (CudaIpcMemHandle_ctor (replicate 64 0)))"
  by (simp add: ExportForIpc_def ExportIpcBuffer_def driver_request_def quiet_device_def
      CudaBuffer_ctor_def CudaIpcMemHandle_ctor_def kHandleSize_def map_replicate_const)

subsection \<open>Facts about the writer\<close>

lemma Impl_Flush_cases:
  "Impl_Flush c w =
     (if 0 < buffer_size w \<and> 0 < buffer_position w then
        (if \<not> driver_rejects c (driver_log c) (flush_request w) \<and>
            device_range c (staged_address w) (int (length (staged_bytes w)))
         then (OK,
               c\<lparr>driver_log := driver_log c @ [flush_request w],
                  device_memory := flushed_memory c w\<rparr>,
               w\<lparr>buffer_position := 0\<rparr>)
         else (CudaError (flush_request w),
               c\<lparr>driver_log := driver_log c @ [flush_request w]\<rparr>, w))
      else (OK, c, w))"
  by (simp add: Impl_Flush_def CopyHostToDevice_cases flushed_memory_def flush_request_def
      staged_address_def staged_bytes_def)

lemma Impl_Flush_inv: "Impl_Flush c w = (st, c', w') \<Longrightarrow> writer_inv w \<Longrightarrow> writer_inv w'"
  by (auto simp: Impl_Flush_cases writer_inv_def split: if_splits)

lemma Impl_Seek_inv: "Impl_Seek w pos = (st, w') \<Longrightarrow> writer_inv w \<Longrightarrow> writer_inv w'"
  by (auto simp: Impl_Seek_def writer_inv_def split: if_splits)

lemma Impl_Write_inv: "Impl_Write c w src = (st, c', w') \<Longrightarrow> writer_inv w \<Longrightarrow> writer_inv w'"
  by (auto simp: Impl_Write_def Impl_Flush_cases CopyHostToDevice_cases writer_inv_def Let_def
      memcpy_at_def split: if_splits)

lemma Impl_WriteAt_inv: "Impl_WriteAt c w pos src = (st, c', w') \<Longrightarrow> writer_inv w \<Longrightarrow> writer_inv w'"
  by (auto simp: Impl_WriteAt_def split: prod.splits if_splits dest: Impl_Seek_inv Impl_Write_inv)

lemma Impl_SetBufferSize_inv:
  "Impl_SetBufferSize c w n = (st, c', w') \<Longrightarrow> writer_inv w \<Longrightarrow> writer_inv w'"
  by (auto simp: Impl_SetBufferSize_def Impl_Flush_cases AllocateCudaHostBuffer_def
      driver_request_def writer_inv_def split: if_splits)

lemma CudaBufferWriter_Seek_inv:
  "CudaBufferWriter_Seek c w pos = (st, c', w') \<Longrightarrow> writer_inv w \<Longrightarrow> writer_inv w'"
  by (auto simp: CudaBufferWriter_Seek_def CudaBufferWriter_Flush_def Impl_Seek_def
      Impl_Flush_cases writer_inv_def split: if_splits)

lemma ctor_inv: "CudaBufferWriterImpl_ctor buffer = Passed w \<Longrightarrow> writer_inv w"
  by (auto simp: CudaBufferWriterImpl_ctor_def writer_inv_def split: if_splits)

lemma apply_op_inv: "apply_op c w op = (st, c', w') \<Longrightarrow> writer_inv w \<Longrightarrow> writer_inv w'"
  by (cases op)
    (auto simp: CudaBufferWriter_Write_def CudaBufferWriter_Flush_def CudaBufferWriter_Close_def
      CudaBufferWriter_SetBufferSize_def CudaBufferWriter_WriteAt_def
      dest: Impl_Write_inv Impl_Flush_inv Impl_SetBufferSize_inv CudaBufferWriter_Seek_inv
        Impl_WriteAt_inv)

lemma run_ops_inv:
  "run_ops (st, c, w) ops = (st', c', w') \<Longrightarrow> writer_inv w \<Longrightarrow> writer_inv w'"
proof (induction ops arbitrary: st c w)
  case Nil
  then show ?case by simp
next
  case (Cons op ops)
  obtain st1 c1 w1 where step: "apply_op c w op = (st1, c1, w1)"
    by (cases "apply_op c w op") auto
  with Cons.prems have "run_ops (st1, c1, w1) ops = (st', c', w')" by simp
  moreover from step Cons.prems have "writer_inv w1" by (auto dest: apply_op_inv)
  ultimately show ?case by (rule Cons.IH)
qed

lemma staged_bytes_length: "writer_inv w \<Longrightarrow> length (staged_bytes w) = nat (buffer_position w)"
  by (auto simp: writer_inv_def staged_bytes_def split: if_splits)

lemma flushed_memory_read:
  assumes "writer_inv w" and "0 < buffer_position w"
    and "device_range c (staged_address w) (buffer_position w)"
  shows "take (nat (buffer_position w)) (drop (nat (staged_address w)) (flushed_memory c w))
           = staged_bytes w"
proof -
  have len: "length (staged_bytes w) = nat (buffer_position w)"
    using assms(1) by (rule staged_bytes_length)
  from assms(3) have "nat (staged_address w) + length (staged_bytes w) \<le> length (device_memory c)"
    unfolding len device_range_def by linarith
  from memcpy_at_read [OF this] assms(2) show ?thesis
    by (simp add: flushed_memory_def len)
qed

subsection \<open>The staging invariant\<close>

text \<open>
  Claim C10. From a freshly constructed writer, after any sequence of \<open>Write\<close>,
  \<open>Flush\<close>, \<open>SetBufferSize\<close>, \<open>Seek\<close>, \<open>WriteAt\<close> and \<open>Close\<close> calls (whether
  they succeed or not), a writer with a staging capacity \<open>C > 0\<close> has a staged
  count \<open>s\<close> with \<open>0 \<le> s < C\<close>.
\<close>

theorem staged_count_below_capacity:
  assumes "CudaBufferWriterImpl_ctor buffer = Passed w0"
    and "run_ops (OK, c, w0) ops = (st, c', w')"
    and "0 < buffer_size w'"
  shows "0 \<le> buffer_position w' \<and> buffer_position w' < buffer_size w'"
proof -
  from assms(1) have "writer_inv w0" by (rule ctor_inv)
  with assms(2) have "writer_inv w'" by (rule run_ops_inv)
  with assms(3) show ?thesis by (simp add: writer_inv_def)
qed

theorem staged_count_below_capacity_witness:
  "buffer_size (snd (snd (run_ops (OK, quiet_device 8,
       \<lparr>w_mutable_data = 0, w_size = 8, position = 0, buffer_size = 0, buffer_position = 0,
        host_buffer_data = []\<rparr>) [OpSetBufferSize 4, OpWrite [1, 2], OpWriteAt 5 [9]]))) = 4 \<and>
   buffer_position (snd (snd (run_ops (OK, quiet_device 8,
       \<lparr>w_mutable_data = 0, w_size = 8, position = 0, buffer_size = 0, buffer_position = 0,
        host_buffer_data = []\<rparr>) [OpSetBufferSize 4, OpWrite [1, 2], OpWriteAt 5 [9]]))) = 3"
proof -
  let ?w0 = "\<lparr>w_mutable_data = 0, w_size = 8, position = 0, buffer_size = 0, buffer_position = 0,
              host_buffer_data = []\<rparr>"
  let ?r = "run_ops (OK, quiet_device 8, ?w0) [OpSetBufferSize 4, OpWrite [1, 2], OpWriteAt 5 [9]]"
  have ctor: "CudaBufferWriterImpl_ctor (CudaBuffer_ctor 0 8 True False) = Passed ?w0"
    by (simp add: CudaBufferWriterImpl_ctor_def CudaBuffer_ctor_def)
  have run: "?r = (fst ?r, fst (snd ?r), snd (snd ?r))" by simp
  have sz: "buffer_size (snd (snd ?r)) = 4" and pos: "buffer_position (snd (snd ?r)) = 3"
    by code_simp+
  from staged_count_below_capacity [OF ctor run] sz pos show ?thesis by simp
qed

subsection \<open>Write, Seek and WriteAt\<close>

text \<open>
  Claim C4. A successful \<open>Write\<close> of \<open>n > 0\<close> bytes in buffered mode, with staging
  capacity \<open>C\<close> and staged count \<open>s\<close>, advances the cursor by \<open>n\<close>. With
  \<open>s + n \<ge> C\<close> the driver sees the flush of the \<open>s\<close> staged bytes (when \<open>s > 0\<close>)
  and then one transfer of all \<open>n\<close> new bytes to the cursor's address; nothing
  stays staged. With \<open>s + n < C\<close> the context is untouched, the bytes are copied
  into the staging buffer at offset \<open>s\<close> and the staged count becomes \<open>s + n\<close>.
\<close>

theorem Write_buffered_boundary_policy:
  assumes "writer_inv w" and "0 < buffer_size w" and "src \<noteq> []"
    and "CudaBufferWriter_Write c w src = (OK, c', w')"
  shows "position w' = position w + int (length src) \<and>
         (buffer_size w \<le> buffer_position w + int (length src) \<longrightarrow>
            buffer_position w' = 0 \<and>
            host_buffer_data w' = host_buffer_data w \<and>
            driver_log c' = driver_log c
              @ (if 0 < buffer_position w then [flush_request w] else [])
              @ [MemcpyHtoD (w_mutable_data w + position w) src] \<and>
            device_memory c' =
              memcpy_at (flushed_memory c w) (nat (w_mutable_data w + position w)) src) \<and>
         (buffer_position w + int (length src) < buffer_size w \<longrightarrow>
            c' = c \<and>
            buffer_position w' = buffer_position w + int (length src) \<and>
            host_buffer_data w' = memcpy_at (host_buffer_data w) (nat (buffer_position w)) src \<and>
            length (host_buffer_data w') = length (host_buffer_data w) \<and>
            staged_bytes w' = staged_bytes w @ src)"
proof (cases "buffer_size w \<le> buffer_position w + int (length src)")
  case True
  with assms show ?thesis
    by (auto simp: CudaBufferWriter_Write_def Impl_Write_def Impl_Flush_cases
        CopyHostToDevice_cases Let_def flushed_memory_def writer_inv_def split: if_splits)
next
  case False
  from assms(1,2) have len: "length (host_buffer_data w) = nat (buffer_size w)"
    and nonneg: "0 \<le> buffer_position w"
    by (auto simp: writer_inv_def)
  from False nonneg len
  have fits: "nat (buffer_position w) + length src \<le> length (host_buffer_data w)" by linarith
  have app: "take (nat (buffer_position w + int (length src)))
               (memcpy_at (host_buffer_data w) (nat (buffer_position w)) src)
             = take (nat (buffer_position w)) (host_buffer_data w) @ src"
    using memcpy_at_staged [OF fits] nonneg by (simp add: nat_add_distrib)
  from False assms fits app show ?thesis
    by (auto simp: CudaBufferWriter_Write_def Impl_Write_def Let_def staged_bytes_def
        memcpy_at_length split: if_splits)
qed

theorem Write_buffered_boundary_policy_witness:
  "CudaBufferWriter_Write (quiet_device 8)
     \<lparr>w_mutable_data = 0, w_size = 8, position = 2, buffer_size = 4, buffer_position = 2,
      host_buffer_data = [1, 2, 0, 0]\<rparr> [7, 8]
   = (OK, (quiet_device 8)\<lparr>device_memory := [1, 2, 7, 8, 0, 0, 0, 0],
                            driver_log := [MemcpyHtoD 0 [1, 2], MemcpyHtoD 2 [7, 8]]\<rparr>,
      \<lparr>w_mutable_data = 0, w_size = 8, position = 4, buffer_size = 4, buffer_position = 0,
       host_buffer_data = [1, 2, 0, 0]\<rparr>) \<and>
   CudaBufferWriter_Write (quiet_device 8)
     \<lparr>w_mutable_data = 0, w_size = 8, position = 2, buffer_size = 4, buffer_position = 2,
      host_buffer_data = [1, 2, 0, 0]\<rparr> [7]
   = (OK, quiet_device 8,
      \<lparr>w_mutable_data = 0, w_size = 8, position = 3, buffer_size = 4, buffer_position = 3,
       host_buffer_data = [1, 2, 7, 0]\<rparr>)"
proof -
  let ?w = "\<lparr>w_mutable_data = 0, w_size = 8, position = 2, buffer_size = 4, buffer_position = 2,
             host_buffer_data = [1, 2, 0, 0]\<rparr>"
  let ?r = "CudaBufferWriter_Write (quiet_device 8) ?w [7, 8]"
  let ?q = "CudaBufferWriter_Write (quiet_device 8) ?w [7]"
  have inv: "writer_inv ?w" by (simp add: writer_inv_def)
  have cap: "0 < buffer_size ?w" by simp
  have r: "?r = (OK, fst (snd ?r), snd (snd ?r))"
    by (simp add: CudaBufferWriter_Write_def Impl_Write_def Impl_Flush_cases
        CopyHostToDevice_cases flush_request_def staged_address_def staged_bytes_def
        flushed_memory_def device_range_def quiet_device_def memcpy_at_def eval_nat_numeral)
  have q: "?q = (OK, fst (snd ?q), snd (snd ?q))"
    by (simp add: CudaBufferWriter_Write_def Impl_Write_def)
  have ne: "[7, 8 :: byte] \<noteq> []" "[7 :: byte] \<noteq> []" by simp_all
  from Write_buffered_boundary_policy [OF inv cap ne(1) r]
    Write_buffered_boundary_policy [OF inv cap ne(2) q]
  show ?thesis
    by (simp add: CudaBufferWriter_Write_def Impl_Write_def Impl_Flush_cases
        CopyHostToDevice_cases flush_request_def staged_address_def staged_bytes_def
        flushed_memory_def device_range_def quiet_device_def memcpy_at_def eval_nat_numeral)
qed

text \<open>
  Claim C5. \<open>CudaBufferWriter::Seek\<close> on a writer with staged bytes first asks the
  driver to copy them to the address they were written for, before the cursor moves.
  When the driver refuses that transfer the error is returned and the writer is
  unchanged. Otherwise nothing is staged any more, the staged bytes can be read from
  the device at that address, and the target is validated: a target outside
  \<open>[0, size)\<close> returns the IO error and leaves the cursor, a target inside sets the
  cursor to it and returns \<open>OK\<close>.
\<close>

theorem CudaBufferWriter_Seek_flushes_then_validates:
  assumes "writer_inv w" and "CudaBufferWriter_Seek c w pos = (st, c', w')"
  shows "if 0 < buffer_position w \<and>
            (driver_rejects c (driver_log c) (flush_request w) \<or>
             \<not> device_range c (staged_address w) (buffer_position w))
         then st = CudaError (flush_request w) \<and> w' = w \<and> device_memory c' = device_memory c
         else buffer_position w' = 0 \<and>
              device_memory c' = flushed_memory c w \<and>
              driver_log c' = driver_log c @ (if 0 < buffer_position w then [flush_request w] else []) \<and>
              (0 < buffer_position w \<longrightarrow>
                 take (nat (buffer_position w)) (drop (nat (staged_address w)) (device_memory c'))
                   = staged_bytes w) \<and>
              (pos < 0 \<or> w_size w \<le> pos \<longrightarrow>
                 st = IOError ''position out of bounds'' \<and> position w' = position w) \<and>
              (0 \<le> pos \<and> pos < w_size w \<longrightarrow> st = OK \<and> position w' = pos)"
proof (cases "0 < buffer_position w")
  case False
  with assms show ?thesis
    by (auto simp: CudaBufferWriter_Seek_def Impl_Seek_def flushed_memory_def writer_inv_def
        split: if_splits)
next
  case True
  with assms(1) have cap: "0 < buffer_size w" and len: "int (length (staged_bytes w)) = buffer_position w"
    by (auto simp: writer_inv_def staged_bytes_def split: if_splits)
  show ?thesis
  proof (cases "driver_rejects c (driver_log c) (flush_request w) \<or>
             \<not> device_range c (staged_address w) (buffer_position w)")
    case True
    with \<open>0 < buffer_position w\<close> cap len assms(2) show ?thesis
      by (auto simp: CudaBufferWriter_Seek_def CudaBufferWriter_Flush_def Impl_Flush_cases)
  next
    case False
    with \<open>0 < buffer_position w\<close> cap len assms(2) flushed_memory_read [OF assms(1), of c]
    show ?thesis
      by (auto simp: CudaBufferWriter_Seek_def CudaBufferWriter_Flush_def Impl_Flush_cases
          Impl_Seek_def split: if_splits)
  qed
qed

theorem CudaBufferWriter_Seek_flushes_then_validates_witness:
  "CudaBufferWriter_Seek (quiet_device 8)
     \<lparr>w_mutable_data = 0, w_size = 8, position = 2, buffer_size = 4, buffer_position = 2,
      host_buffer_data = [1, 2, 0, 0]\<rparr> 5
   = (OK, (quiet_device 8)\<lparr>device_memory := [1, 2, 0, 0, 0, 0, 0, 0],
                            driver_log := [MemcpyHtoD 0 [1, 2]]\<rparr>,
      \<lparr>w_mutable_data = 0, w_size = 8, position = 5, buffer_size = 4, buffer_position = 0,
       host_buffer_data = [1, 2, 0, 0]\<rparr>) \<and>
   fst (CudaBufferWriter_Seek (quiet_device 8)
     \<lparr>w_mutable_data = 0, w_size = 8, position = 2, buffer_size = 4, buffer_position = 2,
      host_buffer_data = [1, 2, 0, 0]\<rparr> 8) = IOError ''position out of bounds''"
proof -
  let ?w = "\<lparr>w_mutable_data = 0, w_size = 8, position = 2, buffer_size = 4, buffer_position = 2,
             host_buffer_data = [1, 2, 0, 0]\<rparr>"
  let ?r = "CudaBufferWriter_Seek (quiet_device 8) ?w 5"
  let ?q = "CudaBufferWriter_Seek (quiet_device 8) ?w 8"
  have inv: "writer_inv ?w" by (simp add: writer_inv_def)
  have r: "?r = (fst ?r, fst (snd ?r), snd (snd ?r))" by simp
  have q: "?q = (fst ?q, fst (snd ?q), snd (snd ?q))" by simp
  from CudaBufferWriter_Seek_flushes_then_validates [OF inv r]
    CudaBufferWriter_Seek_flushes_then_validates [OF inv q]
  show ?thesis
    by (simp add: CudaBufferWriter_Seek_def CudaBufferWriter_Flush_def Impl_Flush_cases
        Impl_Seek_def flush_request_def staged_address_def staged_bytes_def flushed_memory_def
        device_range_def quiet_device_def memcpy_at_def eval_nat_numeral)
qed

text \<open>
  With nothing staged, \<open>WriteAt\<close> is the public \<open>Seek\<close> followed by \<open>Write\<close>.
\<close>

lemma WriteAt_is_Seek_then_Write_when_nothing_staged:
  assumes "buffer_position w \<le> 0"
  shows "CudaBufferWriter_WriteAt c w pos src =
           (let (st, c1, w1) = CudaBufferWriter_Seek c w pos in
            if st \<noteq> OK then (st, c1, w1) else CudaBufferWriter_Write c1 w1 src)"
  using assms
  by (simp add: CudaBufferWriter_WriteAt_def Impl_WriteAt_def CudaBufferWriter_Seek_def
      CudaBufferWriter_Write_def split: prod.splits)

text \<open>
  Claim C1, evaluated on the code. On an 8-byte buffer with staging capacity 4,
  the bytes 1, 2 are written (and staged) at position 0. \<open>WriteAt\<close> of byte 9 at
  position 5 moves the cursor without flushing, so the final flush puts 1, 2, 9 at
  addresses 3 to 5; \<open>Seek\<close> to 5 followed by \<open>Write\<close> of byte 9 puts 1, 2 at
  addresses 0, 1 and 9 at address 5.
\<close>

theorem WriteAt_moves_cursor_before_flush:
  "CudaBufferWriterImpl_ctor (CudaBuffer_ctor 0 8 True False) =
     Passed \<lparr>w_mutable_data = 0, w_size = 8, position = 0, buffer_size = 0, buffer_position = 0,
             host_buffer_data = []\<rparr> \<and>
   device_memory (fst (snd (run_ops (OK, quiet_device 8,
       \<lparr>w_mutable_data = 0, w_size = 8, position = 0, buffer_size = 0, buffer_position = 0,
        host_buffer_data = []\<rparr>) [OpSetBufferSize 4, OpWrite [1, 2], OpWriteAt 5 [9], OpFlush])))
     = [0, 0, 0, 1, 2, 9, 0, 0] \<and>
   device_memory (fst (snd (run_ops (OK, quiet_device 8,
       \<lparr>w_mutable_data = 0, w_size = 8, position = 0, buffer_size = 0, buffer_position = 0,
        host_buffer_data = []\<rparr>) [OpSetBufferSize 4, OpWrite [1, 2], OpSeek 5, OpWrite [9], OpFlush])))
     = [1, 2, 0, 0, 0, 9, 0, 0]"
  by code_simp

subsection \<open>Buffered and unbuffered writers\<close>

lemma unbuffered_Write_OK:
  assumes "buffer_size w \<le> 0" and "src \<noteq> []" and "Impl_Write c w src = (OK, c', w')"
  shows "device_range c (w_mutable_data w + position w) (int (length src)) \<and>
         device_memory c' = memcpy_at (device_memory c) (nat (w_mutable_data w + position w)) src \<and>
         w' = w\<lparr>position := position w + int (length src)\<rparr>"
  using assms
  by (auto simp: Impl_Write_def CopyHostToDevice_cases Let_def split: if_splits)

lemma same_bytes_written_Write:
  assumes sim: "same_bytes_written cu wu cb wb"
    and u: "Impl_Write cu wu src = (OK, cu', wu')"
    and b: "Impl_Write cb wb src = (OK, cb', wb')"
  shows "same_bytes_written cu' wu' cb' wb'"
proof (cases "src = []")
  case True
  with sim u b show ?thesis by (simp add: Impl_Write_def)
next
  case False
  let ?n = "int (length src)"
  let ?a = "w_mutable_data wb + position wb"
  from sim have unbuf: "buffer_size wu \<le> 0" and cap: "0 < buffer_size wb"
    and inv: "writer_inv wb" and pos: "position wu = position wb"
    and md: "w_mutable_data wu = w_mutable_data wb"
    and len: "length (device_memory cu) = length (device_memory cb)"
    and mem: "device_memory cu = flushed_memory cb wb"
    and staged: "0 < buffer_position wb \<Longrightarrow>
       0 \<le> staged_address wb \<and> ?a \<le> int (length (device_memory cb))"
    unfolding same_bytes_written_def by blast+
  from unbuffered_Write_OK [OF unbuf False u] pos md
  have range: "device_range cu ?a ?n"
    and memu: "device_memory cu' = memcpy_at (device_memory cu) (nat ?a) src"
    and wu': "wu' = wu\<lparr>position := position wb + ?n\<rparr>"
    by simp_all
  from range have a0: "0 \<le> ?a" and a1: "?a + ?n \<le> int (length (device_memory cu))"
    by (simp_all add: device_range_def)
  from a0 a1 have fitu: "nat ?a + length src \<le> length (device_memory cu)" by linarith
  have lenu': "length (device_memory cu') = length (device_memory cu)"
    unfolding memu using fitu by (rule memcpy_at_length)
  from inv cap have s0: "0 \<le> buffer_position wb" and s1: "buffer_position wb < buffer_size wb"
    and hlen: "length (host_buffer_data wb) = nat (buffer_size wb)"
    by (simp_all add: writer_inv_def)
  show ?thesis
  proof (cases "buffer_size wb \<le> ?n + buffer_position wb")
    case True
    from True cap False b obtain c1 w1 where
      fl: "Impl_Flush cb wb = (OK, c1, w1)"
      and cp: "CopyHostToDevice c1 (w_mutable_data w1 + position w1) src = (OK, cb')"
      and wb': "wb' = w1\<lparr>position := position w1 + ?n\<rparr>"
      by (auto simp: Impl_Write_def Let_def split: if_splits prod.splits)
    from fl cap have w1: "w1 = wb\<lparr>buffer_position := 0\<rparr>"
      and c1: "device_memory c1 = flushed_memory cb wb"
      using s0 by (auto simp: Impl_Flush_cases flushed_memory_def split: if_splits)
    from cp w1 c1 mem
    have memb: "device_memory cb' = memcpy_at (device_memory cu) (nat ?a) src"
      by (auto dest!: CopyHostToDevice_OK)
    from wb' w1 have wbn: "wb' = wb\<lparr>buffer_position := 0, position := position wb + ?n\<rparr>"
      by simp
    have "writer_inv wb'" using inv cap by (simp add: wbn writer_inv_def)
    moreover have "flushed_memory cb' wb' = device_memory cb'"
      by (simp add: wbn flushed_memory_def)
    ultimately show ?thesis
      using unbuf cap memu memb lenu' md
      by (simp add: same_bytes_written_def wu' wbn)
  next
    case stage: False
    let ?s = "nat (buffer_position wb)"
    from stage cap False b
    have cb': "cb' = cb"
      and wbn: "wb' = wb\<lparr>host_buffer_data := memcpy_at (host_buffer_data wb) ?s src,
                           buffer_position := buffer_position wb + ?n,
                           position := position wb + ?n\<rparr>"
      by (auto simp: Impl_Write_def Let_def split: if_splits)
    from stage s0 hlen have fith: "?s + length src \<le> length (host_buffer_data wb)" by linarith
    have hlen': "length (host_buffer_data wb') = length (host_buffer_data wb)"
      using memcpy_at_length [OF fith] by (simp add: wbn)
    have inv': "writer_inv wb'"
      using stage s0 cap hlen hlen' False by (simp add: wbn writer_inv_def)
    have sb': "staged_bytes wb' = staged_bytes wb @ src"
      using memcpy_at_staged [OF fith] s0 by (simp add: wbn staged_bytes_def nat_add_distrib)
    have sa': "staged_address wb' = staged_address wb"
      by (simp add: wbn staged_address_def)
    have bp': "0 < buffer_position wb'"
      using False s0 by (cases src) (simp_all add: wbn)
    have start: "0 \<le> staged_address wb"
    proof (cases "0 < buffer_position wb")
      case True then show ?thesis using staged by simp
    next
      case False with s0 a0 show ?thesis by (simp add: staged_address_def)
    qed
    have sblen: "length (staged_bytes wb) = ?s" using inv by (rule staged_bytes_length)
    have next_addr: "nat (staged_address wb) + length (staged_bytes wb) = nat ?a"
      using start s0 unfolding sblen staged_address_def by linarith
    have fitb: "nat (staged_address wb) + length (staged_bytes wb) \<le> length (device_memory cb)"
      using next_addr a0 a1 len by linarith
    have "flushed_memory cb' wb' = memcpy_at (device_memory cb) (nat (staged_address wb)) (staged_bytes wb @ src)"
      using bp' by (simp add: flushed_memory_def cb' sb' sa')
    also have "\<dots> = memcpy_at (memcpy_at (device_memory cb) (nat (staged_address wb)) (staged_bytes wb)) (nat ?a) src"
      using memcpy_at_append [OF fitb, of src] by (simp add: next_addr)
    also have "memcpy_at (device_memory cb) (nat (staged_address wb)) (staged_bytes wb) = flushed_memory cb wb"
    proof (cases "0 < buffer_position wb")
      case True then show ?thesis by (simp add: flushed_memory_def)
    next
      case False
      with s0 have "staged_bytes wb = []" by (simp add: staged_bytes_def)
      with False show ?thesis by (simp add: flushed_memory_def memcpy_at_def)
    qed
    finally have memb: "flushed_memory cb' wb' = device_memory cu'"
      by (simp add: memu mem)
    have "w_mutable_data wb' + position wb' \<le> int (length (device_memory cb'))"
      using a1 len by (simp add: wbn cb')
    with inv' memb start show ?thesis
      using unbuf cap lenu' len md
      by (simp add: same_bytes_written_def wu' sa') (simp add: wbn cb')
  qed
qed

lemma same_bytes_written_Write_all:
  "same_bytes_written cu wu cb wb \<Longrightarrow>
   Write_all cu wu ds = (OK, cu', wu') \<Longrightarrow> Write_all cb wb ds = (OK, cb', wb') \<Longrightarrow>
   same_bytes_written cu' wu' cb' wb'"
proof (induction ds arbitrary: cu wu cb wb)
  case Nil
  then show ?case by simp
next
  case (Cons src ds)
  obtain su cu1 wu1 where u: "Impl_Write cu wu src = (su, cu1, wu1)"
    by (cases "Impl_Write cu wu src") auto
  obtain sb cb1 wb1 where b: "Impl_Write cb wb src = (sb, cb1, wb1)"
    by (cases "Impl_Write cb wb src") auto
  from Cons.prems(2) u have su: "su = OK" and ru: "Write_all cu1 wu1 ds = (OK, cu', wu')"
    by (auto simp: CudaBufferWriter_Write_def split: if_splits)
  from Cons.prems(3) b have sb: "sb = OK" and rb: "Write_all cb1 wb1 ds = (OK, cb', wb')"
    by (auto simp: CudaBufferWriter_Write_def split: if_splits)
  from Cons.prems(1) u b have "same_bytes_written cu1 wu1 cb1 wb1"
    unfolding su sb by (rule same_bytes_written_Write)
  from Cons.IH [OF this ru rb] show ?case .
qed

lemma same_bytes_written_Flush:
  assumes "same_bytes_written cu wu cb wb"
    and "Impl_Flush cu wu = (OK, cu', wu')" and "Impl_Flush cb wb = (OK, cb', wb')"
  shows "device_memory cb' = device_memory cu' \<and> position wb' = position wu' \<and>
         buffer_position wb' = 0"
  using assms
  by (auto simp: same_bytes_written_def Impl_Flush_cases flushed_memory_def writer_inv_def
      split: if_splits)

lemma same_bytes_written_start:
  assumes "CudaBufferWriterImpl_ctor buffer = Passed w0" and "1 \<le> C"
    and "Impl_SetBufferSize c w0 C = (OK, cb, wb)"
  shows "same_bytes_written c w0 cb wb"
  using assms
  by (auto simp: CudaBufferWriterImpl_ctor_def Impl_SetBufferSize_def AllocateCudaHostBuffer_def
      driver_request_def same_bytes_written_def writer_inv_def flushed_memory_def
      split: if_splits)

text \<open>
  Claim C3. A writer is constructed on a buffer; one copy of it stays unbuffered,
  the other is given a staging capacity \<open>C \<ge> 1\<close>. Both receive the same sequence of
  \<open>Write\<close> calls followed by \<open>Flush\<close>. When every call of both runs returns
  \<open>OK\<close>, the two devices hold the same bytes at the end (and the cursors agree).
\<close>

theorem buffering_does_not_change_device_bytes:
  assumes "CudaBufferWriterImpl_ctor buffer = Passed w0"
    and "1 \<le> C"
    and "CudaBufferWriter_SetBufferSize c w0 C = (OK, cb0, wb0)"
    and "Write_all_then_Flush c w0 srcs = (OK, cu, wu)"
    and "Write_all_then_Flush cb0 wb0 srcs = (OK, cb, wb)"
  shows "device_memory cb = device_memory cu \<and> position wb = position wu \<and>
         buffer_position wb = 0"
proof -
  from assms(4) obtain cu1 wu1 where u1: "Write_all c w0 srcs = (OK, cu1, wu1)"
    and u2: "Impl_Flush cu1 wu1 = (OK, cu, wu)"
    by (auto simp: Write_all_then_Flush_def CudaBufferWriter_Flush_def
        split: prod.splits if_splits)
  from assms(5) obtain cb1 wb1 where b1: "Write_all cb0 wb0 srcs = (OK, cb1, wb1)"
    and b2: "Impl_Flush cb1 wb1 = (OK, cb, wb)"
    by (auto simp: Write_all_then_Flush_def CudaBufferWriter_Flush_def
        split: prod.splits if_splits)
  from assms(1-3) have "same_bytes_written c w0 cb0 wb0"
    unfolding CudaBufferWriter_SetBufferSize_def by (rule same_bytes_written_start)
  from this u1 b1 have "same_bytes_written cu1 wu1 cb1 wb1"
    by (rule same_bytes_written_Write_all)
  from this u2 b2 show ?thesis
    by (rule same_bytes_written_Flush)
qed

theorem buffering_does_not_change_device_bytes_witness:
  "device_memory (fst (snd (Write_all_then_Flush (quiet_device 8)
      \<lparr>w_mutable_data = 0, w_size = 8, position = 0, buffer_size = 0, buffer_position = 0,
       host_buffer_data = []\<rparr> [[1], [2, 3], [4]])))
     = [1, 2, 3, 4, 0, 0, 0, 0] \<and>
   device_memory (fst (snd (Write_all_then_Flush
      (fst (snd (CudaBufferWriter_SetBufferSize (quiet_device 8)
         \<lparr>w_mutable_data = 0, w_size = 8, position = 0, buffer_size = 0, buffer_position = 0,
          host_buffer_data = []\<rparr> 3)))
      (snd (snd (CudaBufferWriter_SetBufferSize (quiet_device 8)
         \<lparr>w_mutable_data = 0, w_size = 8, position = 0, buffer_size = 0, buffer_position = 0,
          host_buffer_data = []\<rparr> 3)))
      [[1], [2, 3], [4]])))
     = [1, 2, 3, 4, 0, 0, 0, 0]"
proof -
  let ?w0 = "\<lparr>w_mutable_data = 0, w_size = 8, position = 0, buffer_size = 0, buffer_position = 0,
              host_buffer_data = []\<rparr>"
  let ?srcs = "[[1], [2, 3], [4 :: byte]]"
  let ?s = "CudaBufferWriter_SetBufferSize (quiet_device 8) ?w0 3"
  let ?u = "Write_all_then_Flush (quiet_device 8) ?w0 ?srcs"
  let ?b = "Write_all_then_Flush (fst (snd ?s)) (snd (snd ?s)) ?srcs"
  have ctor: "CudaBufferWriterImpl_ctor (CudaBuffer_ctor 0 8 True False) = Passed ?w0"
    by (simp add: CudaBufferWriterImpl_ctor_def CudaBuffer_ctor_def)
  have "fst ?s = OK" by code_simp
  then have s: "?s = (OK, fst (snd ?s), snd (snd ?s))" by (metis prod.collapse)
  have "fst ?u = OK" by code_simp
  then have u: "?u = (OK, fst (snd ?u), snd (snd ?u))" by (metis prod.collapse)
  have "fst ?b = OK" by code_simp
  then have b: "?b = (OK, fst (snd ?b), snd (snd ?b))" by (metis prod.collapse)
  have mem: "device_memory (fst (snd ?u)) = [1, 2, 3, 4, 0, 0, 0, 0]" by code_simp
  have cap: "(1 :: int) \<le> 3" by simp
  from buffering_does_not_change_device_bytes [OF ctor cap s u b] mem
  show ?thesis by simp
qed

text \<open>
  Both runs return \<open>OK\<close> whenever the driver refuses no request and the
  bytes fit into device memory behind the cursor.
\<close>

lemma Impl_Write_succeeds:
  assumes "\<forall>log call. \<not> driver_rejects c log call" and "writer_inv w"
    and "0 \<le> staged_address w"
    and "w_mutable_data w + position w + int (length src) \<le> int (length (device_memory c))"
  shows "\<exists>c' w'. Impl_Write c w src = (OK, c', w') \<and>
           (\<forall>log call. \<not> driver_rejects c' log call) \<and> writer_inv w' \<and>
           0 \<le> staged_address w' \<and>
           w_mutable_data w' + position w' = w_mutable_data w + position w + int (length src) \<and>
           length (device_memory c') = length (device_memory c)"
proof -
  from assms(2) have s0: "0 \<le> buffer_position w" by (simp add: writer_inv_def)
  have sblen: "length (staged_bytes w) = nat (buffer_position w)"
    using assms(2) by (rule staged_bytes_length)
  from assms(3,4) s0
  have fl_range: "device_range c (staged_address w) (int (length (staged_bytes w)))"
    unfolding sblen device_range_def staged_address_def by simp
  from assms(3,4) s0
  have fl_fit: "nat (staged_address w) + length (staged_bytes w) \<le> length (device_memory c)"
    unfolding sblen staged_address_def by linarith
  have fl_len: "length (flushed_memory c w) = length (device_memory c)"
    using memcpy_at_length [OF fl_fit] by (simp add: flushed_memory_def)
  from assms(3,4) s0
  have wr_fit: "nat (w_mutable_data w + position w) + length src \<le> length (device_memory c)"
    and wr_0: "0 \<le> w_mutable_data w + position w"
    unfolding staged_address_def by linarith+
  note wr_len = memcpy_at_length [of "nat (w_mutable_data w + position w)" src]
  show ?thesis
  proof (cases "0 < buffer_size w \<and> \<not> buffer_size w \<le> int (length src) + buffer_position w")
    case True
    with assms(2) s0
    have "nat (buffer_position w) + length src \<le> length (host_buffer_data w)"
      unfolding writer_inv_def by (simp split: if_splits) linarith
    from memcpy_at_length [OF this] True assms show ?thesis
      by (auto simp: Impl_Write_def Let_def writer_inv_def staged_address_def)
  next
    case False
    with assms fl_range wr_fit wr_0 fl_len wr_len show ?thesis
      by (auto simp: Impl_Write_def Let_def Impl_Flush_cases CopyHostToDevice_cases
          writer_inv_def staged_address_def device_range_def)
  qed
qed

lemma Write_all_then_Flush_succeeds:
  assumes "\<forall>log call. \<not> driver_rejects c log call" and "writer_inv w"
    and "0 \<le> staged_address w"
    and "w_mutable_data w + position w + int (length (concat srcs)) \<le> int (length (device_memory c))"
  shows "fst (Write_all_then_Flush c w srcs) = OK"
  using assms
proof (induction srcs arbitrary: c w)
  case Nil
  have sblen: "length (staged_bytes w) = nat (buffer_position w)"
    using Nil(2) by (rule staged_bytes_length)
  from Nil have "0 \<le> buffer_position w" by (simp add: writer_inv_def)
  with Nil(3,4) have "device_range c (staged_address w) (int (length (staged_bytes w)))"
    unfolding sblen device_range_def staged_address_def by simp
  with Nil(1) show ?case
    by (simp add: Write_all_then_Flush_def CudaBufferWriter_Flush_def Impl_Flush_cases)
next
  case (Cons src srcs)
  from Cons.prems(4)
  have "w_mutable_data w + position w + int (length src) \<le> int (length (device_memory c))"
    by simp
  from Impl_Write_succeeds [OF Cons.prems(1-3) this]
  obtain c' w' where step: "Impl_Write c w src = (OK, c', w')"
    and rej: "\<forall>log call. \<not> driver_rejects c' log call" and inv: "writer_inv w'"
    and sa: "0 \<le> staged_address w'"
    and pos: "w_mutable_data w' + position w' = w_mutable_data w + position w + int (length src)"
    and len: "length (device_memory c') = length (device_memory c)"
    by blast
  from Cons.prems(4) pos len
  have "w_mutable_data w' + position w' + int (length (concat srcs)) \<le> int (length (device_memory c'))"
    by simp
  from Cons.IH [OF rej inv sa this] step show ?case
    by (simp add: Write_all_then_Flush_def CudaBufferWriter_Write_def)
qed

lemma runs_succeed_when_bytes_fit:
  assumes "CudaBufferWriterImpl_ctor buffer = Passed w0"
    and "\<forall>log call. \<not> driver_rejects c log call"
    and "0 \<le> mutable_data buffer"
    and "mutable_data buffer + int (length (concat srcs)) \<le> int (length (device_memory c))"
    and "1 \<le> C"
  shows "\<exists>cb0 wb0. CudaBufferWriter_SetBufferSize c w0 C = (OK, cb0, wb0) \<and>
           fst (Write_all_then_Flush c w0 srcs) = OK \<and>
           fst (Write_all_then_Flush cb0 wb0 srcs) = OK"
proof -
  from assms(1) have w0: "w0 = \<lparr>w_mutable_data = mutable_data buffer, w_size = buf_size buffer,
      position = 0, buffer_size = 0, buffer_position = 0, host_buffer_data = []\<rparr>"
    by (auto simp: CudaBufferWriterImpl_ctor_def split: if_splits)
  let ?cb = "c\<lparr>driver_log := driver_log c @ [MemHostAlloc C]\<rparr>"
  let ?wb = "w0\<lparr>host_buffer_data := map (host_junk c) [0..<nat C], buffer_size := C\<rparr>"
  from assms(2,5) have set: "CudaBufferWriter_SetBufferSize c w0 C = (OK, ?cb, ?wb)"
    by (simp add: CudaBufferWriter_SetBufferSize_def Impl_SetBufferSize_def
        AllocateCudaHostBuffer_def driver_request_def w0)
  have "fst (Write_all_then_Flush c w0 srcs) = OK"
    using assms(2-4)
    by (intro Write_all_then_Flush_succeeds) (simp_all add: w0 writer_inv_def staged_address_def)
  moreover have "fst (Write_all_then_Flush ?cb ?wb srcs) = OK"
    using assms(2-5)
    by (intro Write_all_then_Flush_succeeds) (simp_all add: w0 writer_inv_def staged_address_def)
  ultimately show ?thesis using set by blast
qed

end
